theory Spec2Isabelle
  imports Main "HOL-Library.Sublist"
begin

section \<open>The line filter of remove\_system\_health.py\<close>

text \<open>
  The script reads \<^verbatim>\<open>shared/schema.ts\<close> as a list of lines, runs one \<^verbatim>\<open>while\<close> loop
  over them with an index and three flags, and writes the collected lines back. The model
  takes the list that \<^verbatim>\<open>readlines\<close> returns and gives the list that \<^verbatim>\<open>writelines\<close>
  receives. Each line is a \<open>string\<close> that still carries its line terminator.
\<close>

subsection \<open>Substring test\<close>

text \<open>Python's \<^verbatim>\<open>sub in line\<close> on two strings: \<open>sub\<close> occurs at some position of \<open>line\<close>.\<close>

fun str_in :: "string \<Rightarrow> string \<Rightarrow> bool" where
  "str_in sub [] = (sub = [])"
| "str_in sub (c # cs) = (prefix sub (c # cs) \<or> str_in sub cs)"

subsection \<open>State of the loop\<close>

text \<open>
  The only exception the loop could raise is the \<^verbatim>\<open>TypeError\<close> of
  \<^verbatim>\<open>current_section_end in line\<close> when \<^verbatim>\<open>current_section_end\<close> is \<^verbatim>\<open>None\<close>.
\<close>

datatype error = TypeError

record state =
  i :: nat
  skipping :: bool
  current_section_end :: "string option"
  skip_next_complaints :: bool
  fixed_lines :: "string list"

subsection \<open>Hard-coded configuration\<close>

definition skip_sections :: "(string \<times> string \<times> string) list" where
  "skip_sections =
    [(''processImpactLevelEnum'', ''['', '');''),
     (''processes = pgTable'', ''{'', ''});''),
     (''metrics = pgTable'', ''{'', ''});''),
     (''metricValues = pgTable'', ''{'', ''});''),
     (''riskScores = pgTable'', ''{'', ''});''),
     (''alertRules = pgTable'', ''{'', ''});''),
     (''alerts = pgTable'', ''{'', ''});''),
     (''alertConfigurations = pgTable'', ''{'', ''});''),
     (''alertHistory = pgTable'', ''{'', ''});''),
     (''healthScoreHistory = pgTable'', ''{'', ''});''),
     (''insertProcessSchema ='', ''createInsertSchema'', ''});''),
     (''insertMetricSchema ='', ''createInsertSchema'', ''});''),
     (''insertMetricValueSchema ='', ''createInsertSchema'', ''});''),
     (''insertRiskScoreSchema ='', ''createInsertSchema'', ''});''),
     (''insertAlertRuleSchema ='', ''createInsertSchema'', ''});''),
     (''insertAlertSchema ='', ''createInsertSchema'', ''});''),
     (''insertAlertConfigurationSchema ='', ''createInsertSchema'', ''});''),
     (''insertHealthScoreHistorySchema ='', ''createInsertSchema'', ''});'')]"

definition type_removals :: "string list" where
  "type_removals =
    [''export type Process ='',
     ''export type InsertProcess ='',
     ''export type Metric ='',
     ''export type InsertMetric ='',
     ''export type MetricValue ='',
     ''export type InsertMetricValue ='',
     ''export type RiskScore ='',
     ''export type InsertRiskScore ='',
     ''export type AlertRule ='',
     ''export type InsertAlertRule ='',
     ''export type Alert ='',
     ''export type InsertAlert ='',
     ''export type AlertConfiguration ='',
     ''export type InsertAlertConfiguration ='',
     ''export type AlertHistoryEntry ='',
     ''export type HealthScoreHistoryEntry ='',
     ''export type InsertHealthScoreHistoryEntry ='']"

definition relations_sections :: "(string \<times> string) list" where
  "relations_sections =
    [(''// Relations for Risk-Based Analysis & Process Monitoring Module'',
      ''// Relations for Customer Feedback & Complaints'')]"

text \<open>The marker of the duplicated declaration, written twice in the source.\<close>

definition complaints_marker :: string where
  "complaints_marker = ''complaints = pgTable''"

text \<open>The line terminator that the f-string puts after the replacement text.\<close>

definition newline :: string where
  "newline = [CHR 0x0A]"

subsection \<open>The three inner loops\<close>

text \<open>
  The \<^verbatim>\<open>for\<close> loop over \<^verbatim>\<open>relations_sections\<close>. Its \<^verbatim>\<open>continue\<close> belongs to this
  \<^verbatim>\<open>for\<close> loop: after appending the replacement and adding one to \<^verbatim>\<open>i\<close> the loop goes
  on with the next pair, and the code after the loop runs with the same \<^verbatim>\<open>line\<close>.
\<close>

primrec relations_loop :: "(string \<times> string) list \<Rightarrow> string \<Rightarrow> state \<Rightarrow> state" where
  "relations_loop [] line st = st"
| "relations_loop (p # ps) line st =
     (if str_in (fst p) line
      then relations_loop ps line
             (st\<lparr>fixed_lines := fixed_lines st @ [snd p @ newline], i := i st + 1\<rparr>)
      else relations_loop ps line st)"

text \<open>The \<^verbatim>\<open>for\<close> loop that computes \<^verbatim>\<open>skip_type\<close>, leaving at the first hit.\<close>

primrec skip_type_loop :: "string list \<Rightarrow> string \<Rightarrow> bool" where
  "skip_type_loop [] line = False"
| "skip_type_loop (t # ts) line = (if str_in t line then True else skip_type_loop ts line)"

text \<open>The \<^verbatim>\<open>for\<close> loop over \<^verbatim>\<open>skip_sections\<close>, leaving at the first rule that matches.\<close>

primrec sections_loop :: "(string \<times> string \<times> string) list \<Rightarrow> string \<Rightarrow> state \<Rightarrow> state" where
  "sections_loop [] line st = st"
| "sections_loop (r # rs) line st =
     (if str_in (fst r) line \<and> str_in (fst (snd r)) line
      then st\<lparr>skipping := True, current_section_end := Some (snd (snd r)), i := i st + 1\<rparr>
      else sections_loop rs line st)"

subsection \<open>One iteration of the while loop\<close>

definition loop_body :: "string list \<Rightarrow> state \<Rightarrow> error + state" where
  "loop_body lines st =
    (let line = lines ! i st in
     if str_in complaints_marker line \<and> skip_next_complaints st then
       Inr (st\<lparr>i := i st + 1\<rparr>)
     else if str_in complaints_marker line then
       Inr (st\<lparr>skip_next_complaints := True,
               fixed_lines := fixed_lines st @ [line],
               i := i st + 1\<rparr>)
     else
       let st1 = relations_loop relations_sections line st in
       if skip_type_loop type_removals line then
         Inr (st1\<lparr>i := i st1 + 1\<rparr>)
       else if \<not> skipping st1 then
         let st2 = sections_loop skip_sections line st1 in
         if \<not> skipping st2
         then Inr (st2\<lparr>fixed_lines := fixed_lines st2 @ [line], i := i st2 + 1\<rparr>)
         else Inr st2
       else
         (case current_section_end st1 of
            None \<Rightarrow> Inl TypeError
          | Some e \<Rightarrow>
              let st3 = (if str_in e line
                         then st1\<lparr>skipping := False, current_section_end := None\<rparr>
                         else st1)
              in Inr (st3\<lparr>i := i st3 + 1\<rparr>)))"

lemma relations_loop_i: "i st \<le> i (relations_loop ps line st)"
proof (induction ps arbitrary: st)
  case Nil
  show ?case by simp
next
  case (Cons p ps)
  have "i st \<le> i (st\<lparr>fixed_lines := fixed_lines st @ [snd p @ newline], i := i st + 1\<rparr>)"
    by simp
  also have "\<dots> \<le> i (relations_loop ps line
        (st\<lparr>fixed_lines := fixed_lines st @ [snd p @ newline], i := i st + 1\<rparr>))"
    by (rule Cons.IH)
  finally show ?case using Cons.IH [of st] by simp
qed

lemma sections_loop_i:
  "\<not> skipping st \<Longrightarrow>
   i (sections_loop rs line st) = (if skipping (sections_loop rs line st) then i st + 1 else i st)"
  by (induction rs) auto

lemma loop_body_i:
  assumes "loop_body lines st = Inr st'"
  shows "i st < i st'"
proof -
  let ?line = "lines ! i st"
  let ?st1 = "relations_loop relations_sections ?line st"
  have a: "i st \<le> i ?st1" by (rule relations_loop_i)
  have b: "\<not> skipping ?st1 \<Longrightarrow> skipping (sections_loop skip_sections ?line ?st1) \<Longrightarrow>
           i (sections_loop skip_sections ?line ?st1) = i ?st1 + 1"
    using sections_loop_i [of ?st1 skip_sections ?line] by simp
  have c: "\<not> skipping ?st1 \<Longrightarrow> \<not> skipping (sections_loop skip_sections ?line ?st1) \<Longrightarrow>
           i (sections_loop skip_sections ?line ?st1) = i ?st1"
    using sections_loop_i [of ?st1 skip_sections ?line] by simp
  show ?thesis
    using assms a b c
    by (auto simp: loop_body_def Let_def split: if_splits option.splits)
qed

subsection \<open>The while loop and the whole pass\<close>

function run_loop :: "string list \<Rightarrow> state \<Rightarrow> error + state" where
  "run_loop lines st =
     (if i st < length lines
      then (case loop_body lines st of
              Inl e \<Rightarrow> Inl e
            | Inr st' \<Rightarrow> run_loop lines st')
      else Inr st)"
  by pat_completeness auto
termination
proof (relation "measure (\<lambda>(lines, st). length lines - i st)")
  show "wf (measure (\<lambda>(lines, st). length lines - i st))" by simp
next
  fix lines :: "string list" and st st' :: state
  assume "i st < length lines" and "loop_body lines st = Inr st'"
  then show "((lines, st'), (lines, st)) \<in> measure (\<lambda>(lines, st). length lines - i st)"
    using loop_body_i [of lines st st'] by simp
qed

declare run_loop.simps [simp del]

definition init_state :: state where
  "init_state = \<lparr>i = 0, skipping = False, current_section_end = None,
                 skip_next_complaints = False, fixed_lines = []\<rparr>"

definition remove_system_health_components :: "string list \<Rightarrow> error + string list" where
  "remove_system_health_components lines =
     (case run_loop lines init_state of
        Inl e \<Rightarrow> Inl e
      | Inr st \<Rightarrow> Inr (fixed_lines st))"

subsection \<open>Vocabulary of the rules\<close>

text \<open>
  The four tests of one iteration, as predicates on a line: the duplicate-guard marker, the
  old header text of some replacement pair, some type-removal pattern, and the block end
  recorded by the first skip rule whose marker and block-open text both occur.
\<close>

definition has_marker :: "string \<Rightarrow> bool" where
  "has_marker line = str_in complaints_marker line"

definition is_header :: "string \<Rightarrow> bool" where
  "is_header line = list_ex (\<lambda>p. str_in (fst p) line) relations_sections"

definition is_type_removal :: "string \<Rightarrow> bool" where
  "is_type_removal line = list_ex (\<lambda>t. str_in t line) type_removals"

definition rule_matches :: "string \<times> string \<times> string \<Rightarrow> string \<Rightarrow> bool" where
  "rule_matches r line = (str_in (fst r) line \<and> str_in (fst (snd r)) line)"

definition first_match :: "(string \<times> string \<times> string) list \<Rightarrow> string \<Rightarrow> string option" where
  "first_match rs line = map_option (\<lambda>r. snd (snd r)) (find (\<lambda>r. rule_matches r line) rs)"

definition replacement_text :: string where
  "replacement_text = ''// Relations for Customer Feedback & Complaints'' @ newline"

text \<open>The header line of the module to be removed, as it stands in a file.\<close>

definition old_header_line :: string where
  "old_header_line =
     ''// Relations for Risk-Based Analysis & Process Monitoring Module'' @ newline"

text \<open>A line that no rule applies to.\<close>

definition unmatched :: "string \<Rightarrow> bool" where
  "unmatched line =
     (\<not> has_marker line \<and> \<not> is_header line \<and> \<not> is_type_removal line
      \<and> first_match skip_sections line = None)"

text \<open>
  What one input line can put into the output: itself, preceded by the replacement text
  when it is a header line.
\<close>

definition expand :: "string \<Rightarrow> string list" where
  "expand line = (if is_header line then [replacement_text, line] else [line])"

text \<open>A line that may stand in the output as far as the type removals go.\<close>

definition type_clean :: "string \<Rightarrow> bool" where
  "type_clean l = (is_type_removal l \<longrightarrow> has_marker l)"

text \<open>What the duplicate guard lets through from a list of lines, given the latch.\<close>

definition guard_keeps :: "bool \<Rightarrow> string list \<Rightarrow> string list" where
  "guard_keeps latch ls = (if latch then [] else take 1 (filter has_marker ls))"

text \<open>A line that the three tests before the block-skip state machine let pass.\<close>

definition plain :: "string \<Rightarrow> bool" where
  "plain line = (\<not> has_marker line \<and> \<not> is_header line \<and> \<not> is_type_removal line)"

text \<open>The state in which \<^verbatim>\<open>current_section_end in line\<close> cannot raise.\<close>

definition end_recorded :: "state \<Rightarrow> bool" where
  "end_recorded st = (skipping st \<longrightarrow> current_section_end st \<noteq> None)"

lemmas config_defs =
  relations_sections_def type_removals_def skip_sections_def complaints_marker_def newline_def

lemmas rule_defs =
  has_marker_def is_header_def is_type_removal_def rule_matches_def first_match_def
  replacement_text_def unmatched_def

section \<open>Properties\<close>

subsection \<open>The inner loops in terms of the predicates\<close>

lemma str_in_sublist: "str_in sub line = sublist sub line"
  by (induction line) (auto simp: sublist_Cons_right)

lemma relations_loop_header:
  "relations_loop relations_sections line st =
     (if is_header line
      then st\<lparr>fixed_lines := fixed_lines st @ [replacement_text], i := i st + 1\<rparr>
      else st)"
  by (simp add: relations_sections_def is_header_def replacement_text_def)

lemma skip_type_loop_ex: "skip_type_loop ts line = list_ex (\<lambda>t. str_in t line) ts"
  by (induction ts) auto

lemma sections_loop_first_match:
  "sections_loop rs line st =
     (case first_match rs line of
        None \<Rightarrow> st
      | Some e \<Rightarrow> st\<lparr>skipping := True, current_section_end := Some e, i := i st + 1\<rparr>)"
  by (induction rs) (auto simp: first_match_def rule_matches_def)

lemma loop_body_cases:
  "loop_body lines st =
    (let line = lines ! i st in
     if has_marker line then
       (if skip_next_complaints st
        then Inr (st\<lparr>i := i st + 1\<rparr>)
        else Inr (st\<lparr>skip_next_complaints := True,
                     fixed_lines := fixed_lines st @ [line], i := i st + 1\<rparr>))
     else
       let st1 = (if is_header line
                  then st\<lparr>fixed_lines := fixed_lines st @ [replacement_text], i := i st + 1\<rparr>
                  else st) in
       if is_type_removal line then Inr (st1\<lparr>i := i st1 + 1\<rparr>)
       else if \<not> skipping st then
         (case first_match skip_sections line of
            None \<Rightarrow> Inr (st1\<lparr>fixed_lines := fixed_lines st1 @ [line], i := i st1 + 1\<rparr>)
          | Some e \<Rightarrow>
              Inr (st1\<lparr>skipping := True, current_section_end := Some e, i := i st1 + 1\<rparr>))
       else
         (case current_section_end st of
            None \<Rightarrow> Inl TypeError
          | Some e \<Rightarrow>
              if str_in e line
              then Inr (st1\<lparr>skipping := False, current_section_end := None, i := i st1 + 1\<rparr>)
              else Inr (st1\<lparr>i := i st1 + 1\<rparr>)))"
  unfolding loop_body_def relations_loop_header sections_loop_first_match skip_type_loop_ex
  by (simp add: Let_def has_marker_def is_type_removal_def split: option.splits)

lemma run_loop_step:
  "i st < length lines \<Longrightarrow> loop_body lines st = Inr st' \<Longrightarrow>
   run_loop lines st = run_loop lines st'"
  by (subst run_loop.simps) simp

lemma run_loop_done: "length lines \<le> i st \<Longrightarrow> run_loop lines st = Inr st"
  by (subst run_loop.simps) simp

subsection \<open>No exception\<close>

lemma loop_body_end_recorded:
  assumes "end_recorded st"
  shows "\<exists>st'. loop_body lines st = Inr st' \<and> end_recorded st'"
  using assms unfolding loop_body_cases end_recorded_def
  by (auto simp: Let_def split: option.splits)

lemma run_loop_end_recorded:
  "end_recorded st \<Longrightarrow> \<exists>st'. run_loop lines st = Inr st' \<and> end_recorded st'"
proof (induction lines st rule: run_loop.induct)
  case (1 lines st)
  show ?case
  proof (cases "i st < length lines")
    case True
    from loop_body_end_recorded [OF "1.prems"] obtain st1
      where b: "loop_body lines st = Inr st1" and e: "end_recorded st1" by blast
    from "1.IH" [OF True b e] run_loop_step [OF True b] show ?thesis by simp
  next
    case False
    with "1.prems" show ?thesis by (simp add: run_loop_done)
  qed
qed

lemma end_recorded_init: "end_recorded init_state"
  by (simp add: end_recorded_def init_state_def)

text \<open>
  C10: every iteration of the loop that runs (the index is inside the list and the body
  returns) leaves the index strictly larger, and the whole pass returns a list of lines for
  every input list, without raising.
\<close>

theorem filter_terminates:
  "(i st < length lines \<longrightarrow> loop_body lines st = Inr st' \<longrightarrow> i st < i st')
   \<and> (\<exists>out. remove_system_health_components lines = Inr out)"
proof
  show "i st < length lines \<longrightarrow> loop_body lines st = Inr st' \<longrightarrow> i st < i st'"
    using loop_body_i by blast
next
  from run_loop_end_recorded [OF end_recorded_init] obtain st1
    where "run_loop lines init_state = Inr st1" by blast
  then show "\<exists>out. remove_system_health_components lines = Inr out"
    by (simp add: remove_system_health_components_def)
qed

theorem filter_terminates_witness:
  "i init_state < length [old_header_line, ''x'' @ newline]
   \<and> loop_body [old_header_line, ''x'' @ newline] init_state
       = Inr (init_state\<lparr>fixed_lines := [replacement_text, old_header_line], i := 2\<rparr>)
   \<and> i init_state < i (init_state\<lparr>fixed_lines := [replacement_text, old_header_line], i := 2\<rparr>)
   \<and> (\<exists>out. remove_system_health_components [old_header_line, ''x'' @ newline] = Inr out)"
proof -
  let ?lines = "[old_header_line, ''x'' @ newline]"
  let ?st' = "init_state\<lparr>fixed_lines := [replacement_text, old_header_line], i := 2\<rparr>"
  have a: "i init_state < length ?lines" by code_simp
  have b: "loop_body ?lines init_state = Inr ?st'" by code_simp
  from filter_terminates [of init_state ?lines ?st'] a b show ?thesis by blast
qed

subsection \<open>The header replacement falls through\<close>

text \<open>
  C1: a header line is meant to be replaced one for one, with the following line processed
  as usual. On the input of a header line followed by an ordinary line the pass writes the
  replacement text and then the old header line as well, and the ordinary line is lost.
\<close>

theorem header_line_kept_and_next_line_lost:
  "remove_system_health_components [old_header_line, ''export const x = 1;'' @ newline]
   = Inr [replacement_text, old_header_line]"
  by code_simp

text \<open>
  C2: each iteration is meant to apply one action to one line. The iteration that reads a
  header line appends two lines and moves the index from 0 to 2, so that the line at index 1
  is never read.
\<close>

theorem header_iteration_appends_two_and_steps_two:
  "loop_body [old_header_line, ''export const x = 1;'' @ newline] init_state
   = Inr (init_state\<lparr>fixed_lines := [replacement_text, old_header_line], i := 2\<rparr>)"
  by code_simp

subsection \<open>Lines that no rule applies to\<close>

lemma drop_nth_in: "n < length xs \<Longrightarrow> xs ! n \<in> set (drop n xs)"
  by (metis Cons_nth_drop_Suc list.set_intros(1))

lemma loop_body_unmatched:
  assumes "\<not> skipping st" and "unmatched (lines ! i st)"
  shows "loop_body lines st
         = Inr (st\<lparr>fixed_lines := fixed_lines st @ [lines ! i st], i := i st + 1\<rparr>)"
  using assms unfolding loop_body_cases unmatched_def by (simp add: Let_def)

lemma run_loop_unmatched:
  "\<not> skipping st \<Longrightarrow> \<forall>l\<in>set (drop (i st) lines). unmatched l \<Longrightarrow>
   \<exists>st'. run_loop lines st = Inr st' \<and> fixed_lines st' = fixed_lines st @ drop (i st) lines"
proof (induction lines st rule: run_loop.induct)
  case (1 lines st)
  show ?case
  proof (cases "i st < length lines")
    case True
    let ?st1 = "st\<lparr>fixed_lines := fixed_lines st @ [lines ! i st], i := i st + 1\<rparr>"
    have u: "unmatched (lines ! i st)" using "1.prems"(2) drop_nth_in [OF True] by blast
    have b: "loop_body lines st = Inr ?st1" by (rule loop_body_unmatched [OF "1.prems"(1) u])
    have r: "\<forall>l\<in>set (drop (i ?st1) lines). unmatched l"
      using "1.prems"(2) set_drop_subset_set_drop [of "i st" "i st + 1" lines] by auto
    have s: "\<not> skipping ?st1" using "1.prems"(1) by simp
    from "1.IH" [OF True b s r] obtain st' where
      "run_loop lines ?st1 = Inr st'" and
      "fixed_lines st' = fixed_lines ?st1 @ drop (i ?st1) lines" by blast
    then show ?thesis
      using run_loop_step [OF True b] Cons_nth_drop_Suc [OF True] by auto
  next
    case False
    then show ?thesis by (simp add: run_loop_done)
  qed
qed

text \<open>
  C7: when no line of the input carries the duplicate-guard marker, an old header text or a
  type-removal pattern, and no line has both the marker and the block-open text of a skip
  rule, the pass returns the input unchanged.
\<close>

theorem unmatched_lines_identity:
  assumes "\<forall>l\<in>set lines. unmatched l"
  shows "remove_system_health_components lines = Inr lines"
proof -
  have "\<not> skipping init_state" and "i init_state = 0" and "fixed_lines init_state = []"
    by (simp_all add: init_state_def)
  with run_loop_unmatched [of init_state lines] assms show ?thesis
    by (auto simp: remove_system_health_components_def)
qed

theorem unmatched_lines_identity_witness:
  "list_all unmatched
     [''import { pgTable } from x;'' @ newline, ''export const users = pgTable(u, {'' @ newline,
      ''});'' @ newline]
   \<and> remove_system_health_components
        [''import { pgTable } from x;'' @ newline, ''export const users = pgTable(u, {'' @ newline,
         ''});'' @ newline]
       = Inr [''import { pgTable } from x;'' @ newline, ''export const users = pgTable(u, {'' @ newline,
              ''});'' @ newline]"
proof -
  let ?lines = "[''import { pgTable } from x;'' @ newline,
                 ''export const users = pgTable(u, {'' @ newline, ''});'' @ newline]"
  have h: "\<forall>l\<in>set ?lines. unmatched l" by code_simp
  have h': "list_all unmatched ?lines" using h unfolding list_all_iff .
  show ?thesis using h' unmatched_lines_identity [OF h] by (rule conjI)
qed

subsection \<open>Where output lines come from\<close>

lemma loop_body_appends:
  assumes "loop_body lines st = Inr st'"
  shows "\<exists>ys. fixed_lines st' = fixed_lines st @ ys \<and> subseq ys (expand (lines ! i st))"
  using assms unfolding loop_body_cases expand_def
  by (auto simp: Let_def split: if_splits option.splits)

lemma concat_drop_subseq:
  assumes "n \<le> m"
  shows "subseq (concat (map f (drop m xs))) (concat (map f (drop n xs)))"
proof -
  have "drop m xs = drop (m - n) (drop n xs)" using assms by simp
  then have "suffix (drop m xs) (drop n xs)" by (metis suffix_drop)
  then obtain ps where "drop n xs = ps @ drop m xs" by (auto simp: suffix_def)
  then have "concat (map f (drop n xs)) = concat (map f ps) @ concat (map f (drop m xs))"
    by simp
  then show ?thesis by (simp add: list_emb_append2)
qed

lemma set_expand: "set (concat (map expand xs)) \<subseteq> set xs \<union> {replacement_text}"
  by (auto simp: expand_def split: if_splits)

lemma filter_expand_subseq:
  "subseq (filter (\<lambda>l. l \<noteq> replacement_text) (concat (map expand xs))) xs"
  by (induction xs) (auto simp: expand_def)

lemma subseq_set: "subseq xs ys \<Longrightarrow> set xs \<subseteq> set ys"
  using list_emb_set [of "(=)" xs ys] by auto

lemma run_loop_unfold:
  assumes "run_loop lines st = Inr st'" and "i st < length lines"
  shows "\<exists>st1. loop_body lines st = Inr st1 \<and> run_loop lines st1 = Inr st'"
proof (cases "loop_body lines st")
  case (Inl e)
  with assms show ?thesis by (subst (asm) run_loop.simps) simp
next
  case (Inr st1)
  with assms run_loop_step [OF assms(2) Inr] show ?thesis by simp
qed

lemma run_loop_appends:
  "run_loop lines st = Inr st' \<Longrightarrow>
   \<exists>ys. fixed_lines st' = fixed_lines st @ ys
        \<and> subseq ys (concat (map expand (drop (i st) lines)))"
proof (induction lines st rule: run_loop.induct)
  case (1 lines st)
  show ?case
  proof (cases "i st < length lines")
    case True
    from run_loop_unfold [OF "1.prems" True] obtain st1 where
      b: "loop_body lines st = Inr st1" and r: "run_loop lines st1 = Inr st'" by blast
    from "1.IH" [OF True b r] obtain zs where
      zs: "fixed_lines st' = fixed_lines st1 @ zs"
          "subseq zs (concat (map expand (drop (i st1) lines)))" by blast
    from loop_body_appends [OF b] obtain ys where
      ys: "fixed_lines st1 = fixed_lines st @ ys" "subseq ys (expand (lines ! i st))" by blast
    have "Suc (i st) \<le> i st1" using loop_body_i [OF b] by simp
    from concat_drop_subseq [OF this, of expand lines]
    have "subseq (concat (map expand (drop (i st1) lines)))
                 (concat (map expand (drop (Suc (i st)) lines)))" .
    with zs(2) have "subseq zs (concat (map expand (drop (Suc (i st)) lines)))"
      by (rule subseq_order.order_trans)
    with ys(2) have "subseq (ys @ zs)
        (expand (lines ! i st) @ concat (map expand (drop (Suc (i st)) lines)))"
      by (rule list_emb_append_mono)
    moreover have "expand (lines ! i st) @ concat (map expand (drop (Suc (i st)) lines))
                   = concat (map expand (drop (i st) lines))"
      using Cons_nth_drop_Suc [OF True, symmetric] by simp
    ultimately have "subseq (ys @ zs) (concat (map expand (drop (i st) lines)))" by simp
    moreover have "fixed_lines st' = fixed_lines st @ (ys @ zs)" using ys(1) zs(1) by simp
    ultimately show ?thesis by blast
  next
    case False
    with "1.prems" show ?thesis by (simp add: run_loop_done)
  qed
qed

text \<open>
  C9: every line of the output is a line of the input or the replacement text, and the
  lines taken from the input stand in the output in the order they have in the input. The
  last conjunct says both at once: the output is a subsequence of the input in which each
  header line is preceded by the replacement text.
\<close>

theorem output_lines_from_input_in_order:
  "\<exists>out. remove_system_health_components lines = Inr out
     \<and> set out \<subseteq> set lines \<union> {replacement_text}
     \<and> subseq (filter (\<lambda>l. l \<noteq> replacement_text) out) lines
     \<and> subseq out (concat (map expand lines))"
proof -
  from run_loop_end_recorded [OF end_recorded_init] obtain st'
    where r: "run_loop lines init_state = Inr st'" by blast
  from run_loop_appends [OF r] have s: "subseq (fixed_lines st') (concat (map expand lines))"
    by (simp add: init_state_def)
  have a: "set (fixed_lines st') \<subseteq> set lines \<union> {replacement_text}"
    using subseq_set [OF s] set_expand [of lines] by (rule subset_trans)
  have "subseq (filter (\<lambda>l. l \<noteq> replacement_text) (fixed_lines st'))
               (filter (\<lambda>l. l \<noteq> replacement_text) (concat (map expand lines)))"
    using s by (rule subseq_filter)
  then have b: "subseq (filter (\<lambda>l. l \<noteq> replacement_text) (fixed_lines st')) lines"
    using filter_expand_subseq [of lines] by (rule subseq_order.order_trans)
  show ?thesis using r a b s by (simp add: remove_system_health_components_def)
qed

theorem output_lines_from_input_in_order_witness:
  "remove_system_health_components [old_header_line, ''x'' @ newline]
     = Inr [replacement_text, old_header_line]
   \<and> set [replacement_text, old_header_line]
       \<subseteq> set [old_header_line, ''x'' @ newline] \<union> {replacement_text}
   \<and> subseq (filter (\<lambda>l. l \<noteq> replacement_text) [replacement_text, old_header_line])
         [old_header_line, ''x'' @ newline]
   \<and> subseq [replacement_text, old_header_line]
         (concat (map expand [old_header_line, ''x'' @ newline]))"
proof -
  let ?lines = "[old_header_line, ''x'' @ newline]"
  have e: "remove_system_health_components ?lines = Inr [replacement_text, old_header_line]"
    by code_simp
  from output_lines_from_input_in_order [of ?lines] e show ?thesis by simp
qed

subsection \<open>Type removals\<close>

lemma replacement_text_clean: "\<not> is_type_removal replacement_text"
  by code_simp

lemma loop_body_type:
  assumes "loop_body lines st = Inr st'" and "\<forall>l\<in>set (fixed_lines st). type_clean l"
  shows "\<forall>l\<in>set (fixed_lines st'). type_clean l"
  using assms replacement_text_clean unfolding loop_body_cases type_clean_def
  by (auto simp: Let_def split: if_splits option.splits)

lemma run_loop_type:
  "run_loop lines st = Inr st' \<Longrightarrow> \<forall>l\<in>set (fixed_lines st). type_clean l \<Longrightarrow>
   \<forall>l\<in>set (fixed_lines st'). type_clean l"
proof (induction lines st rule: run_loop.induct)
  case (1 lines st)
  show ?case
  proof (cases "i st < length lines")
    case True
    from run_loop_unfold [OF "1.prems"(1) True] obtain st1 where
      b: "loop_body lines st = Inr st1" and r: "run_loop lines st1 = Inr st'" by blast
    from "1.IH" [OF True b r loop_body_type [OF b "1.prems"(2)]] show ?thesis .
  next
    case False
    with "1.prems" show ?thesis by (simp add: run_loop_done)
  qed
qed

text \<open>
  C6, as amended: a line with a type-removal pattern and without the duplicate-guard marker
  is never in the output, whatever the block state is when it is read. (The duplicate guard
  is tested first, so a line that also carries the marker can be kept.)
\<close>

theorem type_removal_lines_dropped:
  "\<exists>out. remove_system_health_components lines = Inr out
     \<and> (\<forall>l. is_type_removal l \<and> \<not> has_marker l \<longrightarrow> l \<notin> set out)"
proof -
  from run_loop_end_recorded [OF end_recorded_init] obtain st'
    where r: "run_loop lines init_state = Inr st'" by blast
  have "\<forall>l\<in>set (fixed_lines init_state). type_clean l" by (simp add: init_state_def)
  from run_loop_type [OF r this] have "\<forall>l\<in>set (fixed_lines st'). type_clean l" .
  then have "\<forall>l. is_type_removal l \<and> \<not> has_marker l \<longrightarrow> l \<notin> set (fixed_lines st')"
    unfolding type_clean_def by blast
  with r show ?thesis by (simp add: remove_system_health_components_def)
qed

theorem type_removal_lines_dropped_witness:
  "remove_system_health_components
     [''export const metrics = pgTable(m, {'' @ newline, ''});'' @ newline,
      ''export type Metric = typeof metrics.$inferSelect;'' @ newline, ''// end'' @ newline]
     = Inr [''// end'' @ newline]
   \<and> is_type_removal (''export type Metric = typeof metrics.$inferSelect;'' @ newline)
   \<and> \<not> has_marker (''export type Metric = typeof metrics.$inferSelect;'' @ newline)
   \<and> ''export type Metric = typeof metrics.$inferSelect;'' @ newline \<notin> set [''// end'' @ newline]"
proof -
  let ?l = "''export type Metric = typeof metrics.$inferSelect;'' @ newline"
  let ?lines = "[''export const metrics = pgTable(m, {'' @ newline, ''});'' @ newline,
                 ?l, ''// end'' @ newline]"
  have e: "remove_system_health_components ?lines = Inr [''// end'' @ newline]" by code_simp
  have t: "is_type_removal ?l" by code_simp
  have m: "\<not> has_marker ?l" by code_simp
  from type_removal_lines_dropped [of ?lines] e t m show ?thesis by auto
qed

text \<open>
  C6 as stated fails: this line has the pattern \<^verbatim>\<open>export type Process =\<close> and is kept,
  because it also has the duplicate-guard marker and is its first occurrence.
\<close>

theorem type_removal_line_with_marker_kept:
  "is_type_removal (''export type Process = typeof complaints = pgTable;'' @ newline)
   \<and> remove_system_health_components
        [''export type Process = typeof complaints = pgTable;'' @ newline]
       = Inr [''export type Process = typeof complaints = pgTable;'' @ newline]"
  by code_simp

subsection \<open>The duplicate guard\<close>

lemma loop_body_no_header:
  assumes "\<not> is_header (lines ! i st)" and "end_recorded st"
  shows "\<exists>st'. loop_body lines st = Inr st' \<and> i st' = i st + 1 \<and> end_recorded st'
     \<and> skip_next_complaints st' = (skip_next_complaints st \<or> has_marker (lines ! i st))
     \<and> filter has_marker (fixed_lines st')
         = filter has_marker (fixed_lines st) @ guard_keeps (skip_next_complaints st) [lines ! i st]"
  using assms unfolding loop_body_cases end_recorded_def guard_keeps_def
  by (auto simp: Let_def split: option.splits)

lemma guard_keeps_Cons:
  "guard_keeps latch [l] @ guard_keeps (latch \<or> has_marker l) ls = guard_keeps latch (l # ls)"
  by (simp add: guard_keeps_def)

lemma run_loop_no_header:
  "end_recorded st \<Longrightarrow> \<forall>l\<in>set (drop (i st) lines). \<not> is_header l \<Longrightarrow>
   \<exists>st'. run_loop lines st = Inr st'
     \<and> filter has_marker (fixed_lines st')
         = filter has_marker (fixed_lines st)
           @ guard_keeps (skip_next_complaints st) (drop (i st) lines)"
proof (induction lines st rule: run_loop.induct)
  case (1 lines st)
  show ?case
  proof (cases "i st < length lines")
    case True
    have h: "\<not> is_header (lines ! i st)" using "1.prems"(2) drop_nth_in [OF True] by blast
    from loop_body_no_header [OF h "1.prems"(1)] obtain st1 where
      b: "loop_body lines st = Inr st1" and n: "i st1 = i st + 1" and e: "end_recorded st1"
      and f: "skip_next_complaints st1 = (skip_next_complaints st \<or> has_marker (lines ! i st))"
      and o: "filter has_marker (fixed_lines st1)
         = filter has_marker (fixed_lines st) @ guard_keeps (skip_next_complaints st) [lines ! i st]"
      by blast
    have r: "\<forall>l\<in>set (drop (i st1) lines). \<not> is_header l"
      using "1.prems"(2) n set_drop_subset_set_drop [of "i st" "i st + 1" lines] by auto
    from "1.IH" [OF True b e r] obtain st' where
      s: "run_loop lines st1 = Inr st'" and
      t: "filter has_marker (fixed_lines st')
           = filter has_marker (fixed_lines st1)
             @ guard_keeps (skip_next_complaints st1) (drop (i st1) lines)" by blast
    have "guard_keeps (skip_next_complaints st) [lines ! i st]
            @ guard_keeps (skip_next_complaints st1) (drop (i st1) lines)
          = guard_keeps (skip_next_complaints st) (drop (i st) lines)"
      using guard_keeps_Cons [of "skip_next_complaints st" "lines ! i st" "drop (Suc (i st)) lines"]
        f n Cons_nth_drop_Suc [OF True] by simp
    with o t have "filter has_marker (fixed_lines st')
         = filter has_marker (fixed_lines st)
           @ guard_keeps (skip_next_complaints st) (drop (i st) lines)" by simp
    with s run_loop_step [OF True b] show ?thesis by simp
  next
    case False
    then show ?thesis by (simp add: run_loop_done guard_keeps_def)
  qed
qed

text \<open>
  C3, as amended: the latch is set at the first marker line and never cleared, so in an
  input without header lines the marker lines of the output are exactly the first marker
  line of the input: the second, the third and every later one are dropped.
\<close>

theorem only_first_marker_line_kept:
  assumes "\<forall>l\<in>set lines. \<not> is_header l"
  shows "\<exists>out. remove_system_health_components lines = Inr out
           \<and> filter has_marker out = take 1 (filter has_marker lines)"
proof -
  have "i init_state = 0" "fixed_lines init_state = []" "\<not> skip_next_complaints init_state"
    by (simp_all add: init_state_def)
  with run_loop_no_header [OF end_recorded_init, of lines] assms show ?thesis
    by (auto simp: remove_system_health_components_def guard_keeps_def)
qed

theorem only_first_marker_line_kept_witness:
  "list_all (\<lambda>l. \<not> is_header l)
     [''// tables'' @ newline, ''export const complaints = pgTable(a, {'' @ newline,
      ''export const complaints = pgTable(b, {'' @ newline,
      ''export const complaints = pgTable(c, {'' @ newline]
   \<and> remove_system_health_components
        [''// tables'' @ newline, ''export const complaints = pgTable(a, {'' @ newline,
         ''export const complaints = pgTable(b, {'' @ newline,
         ''export const complaints = pgTable(c, {'' @ newline]
       = Inr [''// tables'' @ newline, ''export const complaints = pgTable(a, {'' @ newline]
   \<and> filter has_marker [''// tables'' @ newline, ''export const complaints = pgTable(a, {'' @ newline]
       = take 1 (filter has_marker
           [''// tables'' @ newline, ''export const complaints = pgTable(a, {'' @ newline,
            ''export const complaints = pgTable(b, {'' @ newline,
            ''export const complaints = pgTable(c, {'' @ newline])"
proof -
  let ?lines = "[''// tables'' @ newline, ''export const complaints = pgTable(a, {'' @ newline,
                 ''export const complaints = pgTable(b, {'' @ newline,
                 ''export const complaints = pgTable(c, {'' @ newline]"
  have h: "\<forall>l\<in>set ?lines. \<not> is_header l" by code_simp
  have e: "remove_system_health_components ?lines
           = Inr [''// tables'' @ newline, ''export const complaints = pgTable(a, {'' @ newline]"
    by code_simp
  have h': "list_all (\<lambda>l. \<not> is_header l) ?lines" using h unfolding list_all_iff .
  from only_first_marker_line_kept [OF h] e h' show ?thesis by auto
qed

text \<open>
  C3 as stated fails: of three marker lines the third is dropped like the second.
\<close>

theorem third_marker_line_dropped:
  "has_marker (''export const complaints = pgTable(c, {'' @ newline)
   \<and> remove_system_health_components
        [''export const complaints = pgTable(a, {'' @ newline,
         ''export const complaints = pgTable(b, {'' @ newline,
         ''export const complaints = pgTable(c, {'' @ newline]
       = Inr [''export const complaints = pgTable(a, {'' @ newline]"
  by code_simp

text \<open>
  C4: the first marker line is meant to be kept and every later one dropped. After a
  header line the index moves by two, so the first marker line is never read and is lost,
  and the second marker line is the one that is kept.
\<close>

theorem first_marker_line_lost_after_header:
  "remove_system_health_components
     [old_header_line, ''export const complaints = pgTable(a, {'' @ newline,
      ''export const complaints = pgTable(b, {'' @ newline]
   = Inr [replacement_text, old_header_line, ''export const complaints = pgTable(b, {'' @ newline]"
  by code_simp

subsection \<open>A block that is never closed\<close>

lemma loop_body_inside:
  assumes "skipping st" and "current_section_end st = Some c"
    and "\<not> is_header (lines ! i st)" and "\<not> str_in c (lines ! i st)"
  shows "loop_body lines st
         = Inr (st\<lparr>skip_next_complaints := skip_next_complaints st \<or> has_marker (lines ! i st),
                   fixed_lines := fixed_lines st
                                  @ guard_keeps (skip_next_complaints st) [lines ! i st],
                   i := i st + 1\<rparr>)"
  using assms unfolding loop_body_cases guard_keeps_def
  by (auto simp: Let_def)

text \<open>
  C8, as amended: when the loop is inside a block and no remaining line has the recorded
  block end (nor an old header text), the loop runs to the end of the input without raising
  and still inside the block, and it keeps nothing of the remaining lines except the first
  line with the duplicate-guard marker, and that only when no marker line was kept before.
\<close>

theorem unterminated_block_swallows_rest:
  "skipping st \<Longrightarrow> current_section_end st = Some c \<Longrightarrow>
   \<forall>l\<in>set (drop (i st) lines). \<not> str_in c l \<and> \<not> is_header l \<Longrightarrow>
   \<exists>st'. run_loop lines st = Inr st' \<and> skipping st' \<and> current_section_end st' = Some c
     \<and> fixed_lines st'
         = fixed_lines st @ guard_keeps (skip_next_complaints st) (drop (i st) lines)"
proof (induction lines st rule: run_loop.induct)
  case (1 lines st)
  show ?case
  proof (cases "i st < length lines")
    case True
    let ?l = "lines ! i st"
    let ?st1 = "st\<lparr>skip_next_complaints := skip_next_complaints st \<or> has_marker ?l,
                     fixed_lines := fixed_lines st @ guard_keeps (skip_next_complaints st) [?l],
                     i := i st + 1\<rparr>"
    have h: "\<not> str_in c ?l \<and> \<not> is_header ?l"
      using "1.prems"(3) drop_nth_in [OF True] by blast
    have b: "loop_body lines st = Inr ?st1"
      using loop_body_inside [OF "1.prems"(1,2)] h by blast
    have r: "\<forall>l\<in>set (drop (i ?st1) lines). \<not> str_in c l \<and> \<not> is_header l"
      using "1.prems"(3) set_drop_subset_set_drop [of "i st" "i st + 1" lines] by auto
    have s: "skipping ?st1" "current_section_end ?st1 = Some c" using "1.prems"(1,2) by simp_all
    from "1.IH" [OF True b s r] obtain st' where
      t: "run_loop lines ?st1 = Inr st'" "skipping st'" "current_section_end st' = Some c"
         "fixed_lines st' = fixed_lines ?st1
            @ guard_keeps (skip_next_complaints ?st1) (drop (i ?st1) lines)" by blast
    have "guard_keeps (skip_next_complaints st) [?l]
            @ guard_keeps (skip_next_complaints ?st1) (drop (i ?st1) lines)
          = guard_keeps (skip_next_complaints st) (drop (i st) lines)"
      using guard_keeps_Cons [of "skip_next_complaints st" ?l "drop (Suc (i st)) lines"]
        Cons_nth_drop_Suc [OF True] by simp
    with t(4) have "fixed_lines st'
         = fixed_lines st @ guard_keeps (skip_next_complaints st) (drop (i st) lines)" by simp
    with t(1,2,3) run_loop_step [OF True b] show ?thesis by simp
  next
    case False
    with "1.prems" show ?thesis by (simp add: run_loop_done guard_keeps_def)
  qed
qed

theorem unterminated_block_swallows_rest_witness:
  "loop_body [''export const alerts = pgTable(a, {'' @ newline, ''  id: serial(),'' @ newline,
              ''export const complaints = pgTable(c, {'' @ newline, ''  title: text(),'' @ newline]
     init_state
     = Inr (init_state\<lparr>skipping := True, current_section_end := Some ''});'', i := 1\<rparr>)
   \<and> list_all (\<lambda>l. \<not> str_in ''});'' l \<and> \<not> is_header l)
        (drop 1 [''export const alerts = pgTable(a, {'' @ newline,
                 ''  id: serial(),'' @ newline,
                 ''export const complaints = pgTable(c, {'' @ newline,
                 ''  title: text(),'' @ newline])
   \<and> (\<exists>st'. run_loop [''export const alerts = pgTable(a, {'' @ newline,
                         ''  id: serial(),'' @ newline,
                         ''export const complaints = pgTable(c, {'' @ newline,
                         ''  title: text(),'' @ newline]
                (init_state\<lparr>skipping := True, current_section_end := Some ''});'', i := 1\<rparr>)
               = Inr st'
         \<and> skipping st' \<and> current_section_end st' = Some ''});''
         \<and> fixed_lines st' = [''export const complaints = pgTable(c, {'' @ newline])"
proof -
  let ?lines = "[''export const alerts = pgTable(a, {'' @ newline, ''  id: serial(),'' @ newline,
                 ''export const complaints = pgTable(c, {'' @ newline,
                 ''  title: text(),'' @ newline]"
  let ?st = "init_state\<lparr>skipping := True, current_section_end := Some ''});'', i := 1\<rparr>"
  have a: "loop_body ?lines init_state = Inr ?st" by code_simp
  have s: "skipping ?st" by simp
  have c: "current_section_end ?st = Some ''});''" by simp
  have h: "\<forall>l\<in>set (drop 1 ?lines). \<not> str_in ''});'' l \<and> \<not> is_header l" by code_simp
  have h': "\<forall>l\<in>set (drop (i ?st) ?lines). \<not> str_in ''});'' l \<and> \<not> is_header l"
    using h by simp
  have g: "fixed_lines ?st @ guard_keeps (skip_next_complaints ?st) (drop (i ?st) ?lines)
           = [''export const complaints = pgTable(c, {'' @ newline]" by code_simp
  have h'': "list_all (\<lambda>l. \<not> str_in ''});'' l \<and> \<not> is_header l) (drop 1 ?lines)"
    using h unfolding list_all_iff .
  from unterminated_block_swallows_rest [OF s c h'] g a h'' show ?thesis by auto
qed

text \<open>
  C8 as stated fails: inside the block of \<^verbatim>\<open>alerts = pgTable\<close>, never closed, the line
  with the duplicate-guard marker is kept.
\<close>

theorem marker_line_kept_inside_unterminated_block:
  "\<not> str_in ''});'' (''  id: serial(),'' @ newline)
   \<and> \<not> str_in ''});'' (''export const complaints = pgTable(c, {'' @ newline)
   \<and> remove_system_health_components
        [''export const alerts = pgTable(a, {'' @ newline, ''  id: serial(),'' @ newline,
         ''export const complaints = pgTable(c, {'' @ newline]
       = Inr [''export const complaints = pgTable(c, {'' @ newline]"
  by code_simp

subsection \<open>Skipped blocks\<close>

lemma at_index:
  "lines = xs @ l # zs \<Longrightarrow> i st = length xs \<Longrightarrow> lines ! i st = l \<and> i st < length lines"
  by simp

lemma first_match_decomposed:
  assumes "rule_matches r l"
    and "\<forall>q\<in>set before. rule_matches q l \<longrightarrow> snd (snd q) = snd (snd r)"
  shows "first_match (before @ r # after) l = Some (snd (snd r))"
  using assms by (induction before) (auto simp: first_match_def)

lemma loop_body_open:
  assumes "\<not> skipping st" and "plain (lines ! i st)"
    and "first_match skip_sections (lines ! i st) = Some c"
  shows "loop_body lines st
         = Inr (st\<lparr>skipping := True, current_section_end := Some c, i := i st + 1\<rparr>)"
  using assms unfolding loop_body_cases plain_def by (simp add: Let_def)

lemma loop_body_close:
  assumes "skipping st" and "current_section_end st = Some c"
    and "plain (lines ! i st)" and "str_in c (lines ! i st)"
  shows "loop_body lines st
         = Inr (st\<lparr>skipping := False, current_section_end := None, i := i st + 1\<rparr>)"
  using assms unfolding loop_body_cases plain_def by (simp add: Let_def)

lemma loop_body_inner:
  assumes "skipping st" and "current_section_end st = Some c"
    and "\<not> has_marker (lines ! i st)" and "\<not> is_header (lines ! i st)"
    and "\<not> str_in c (lines ! i st)"
  shows "loop_body lines st = Inr (st\<lparr>i := i st + 1\<rparr>)"
  using assms unfolding loop_body_cases by (simp add: Let_def)

lemma keep_run:
  "lines = xs @ ys @ zs \<Longrightarrow> i st = length xs \<Longrightarrow> \<not> skipping st \<Longrightarrow>
   \<forall>l\<in>set ys. unmatched l \<Longrightarrow>
   run_loop lines st
   = run_loop lines (st\<lparr>fixed_lines := fixed_lines st @ ys, i := length xs + length ys\<rparr>)"
proof (induction ys arbitrary: xs st)
  case Nil
  have "st\<lparr>i := length xs\<rparr> = st\<lparr>i := i st\<rparr>" using Nil.prems(2) by simp
  also have "\<dots> = st" by simp
  finally show ?case by simp
next
  case (Cons y ys)
  let ?st1 = "st\<lparr>fixed_lines := fixed_lines st @ [y], i := i st + 1\<rparr>"
  have l: "lines = xs @ y # (ys @ zs)" using Cons.prems(1) by simp
  from at_index [OF l Cons.prems(2)] have a: "lines ! i st = y" "i st < length lines"
    by simp_all
  have "unmatched (lines ! i st)" using a(1) Cons.prems(4) by simp
  from loop_body_unmatched [OF Cons.prems(3) this]
  have b: "loop_body lines st = Inr ?st1" using a(1) by simp
  have "run_loop lines ?st1
        = run_loop lines (?st1\<lparr>fixed_lines := fixed_lines ?st1 @ ys,
                                 i := length (xs @ [y]) + length ys\<rparr>)"
    using Cons.prems by (intro Cons.IH) simp_all
  with run_loop_step [OF a(2) b] show ?case by simp
qed

lemma skip_run:
  "lines = xs @ ys @ zs \<Longrightarrow> i st = length xs \<Longrightarrow> skipping st \<Longrightarrow>
   current_section_end st = Some c \<Longrightarrow>
   \<forall>l\<in>set ys. \<not> has_marker l \<and> \<not> is_header l \<and> \<not> str_in c l \<Longrightarrow>
   run_loop lines st = run_loop lines (st\<lparr>i := length xs + length ys\<rparr>)"
proof (induction ys arbitrary: xs st)
  case Nil
  have "st\<lparr>i := length xs\<rparr> = st\<lparr>i := i st\<rparr>" using Nil.prems(2) by simp
  also have "\<dots> = st" by simp
  finally show ?case by simp
next
  case (Cons y ys)
  let ?st1 = "st\<lparr>i := i st + 1\<rparr>"
  have l: "lines = xs @ y # (ys @ zs)" using Cons.prems(1) by simp
  from at_index [OF l Cons.prems(2)] have a: "lines ! i st = y" "i st < length lines"
    by simp_all
  have b: "loop_body lines st = Inr ?st1"
    using loop_body_inner [OF Cons.prems(3,4), of lines] a(1) Cons.prems(5) by simp
  have "run_loop lines ?st1 = run_loop lines (?st1\<lparr>i := length (xs @ [y]) + length ys\<rparr>)"
    using Cons.prems by (intro Cons.IH) simp_all
  with run_loop_step [OF a(2) b] show ?case by simp
qed


lemma block_run:
  assumes l: "lines = xs @ [l] @ inner @ [c] @ zs" and st: "i st = length xs" "\<not> skipping st"
    and m: "first_match skip_sections l = Some block_close" and pl: "plain l"
    and inner: "\<forall>x\<in>set inner. \<not> has_marker x \<and> \<not> is_header x \<and> \<not> str_in block_close x"
    and cls: "plain c" "str_in block_close c"
  shows "run_loop lines st
         = run_loop lines (st\<lparr>skipping := False, current_section_end := None,
                              i := length xs + length inner + 2\<rparr>)"
proof -
  let ?s2 = "st\<lparr>skipping := True, current_section_end := Some block_close, i := i st + 1\<rparr>"
  let ?s3 = "?s2\<lparr>i := length (xs @ [l]) + length inner\<rparr>"
  let ?s4 = "?s3\<lparr>skipping := False, current_section_end := None, i := i ?s3 + 1\<rparr>"
  have a2: "lines ! i st = l \<and> i st < length lines"
    using l st(1) by (intro at_index [where zs = "inner @ [c] @ zs"]) simp_all
  have "loop_body lines st = Inr ?s2"
    using a2 pl m st(2) by (intro loop_body_open) simp_all
  with a2 have r2: "run_loop lines st = run_loop lines ?s2"
    by (intro run_loop_step) simp_all
  have r3: "run_loop lines ?s2 = run_loop lines ?s3"
    using l st(1) inner
    by (intro skip_run [where zs = "[c] @ zs" and c = block_close]) simp_all
  have a4: "lines ! i ?s3 = c \<and> i ?s3 < length lines"
    using l by (intro at_index [where xs = "xs @ [l] @ inner" and zs = zs]) simp_all
  have "loop_body lines ?s3 = Inr ?s4"
    using a4 cls by (intro loop_body_close [where c = block_close]) simp_all
  with a4 have r4: "run_loop lines ?s3 = run_loop lines ?s4"
    by (intro run_loop_step) simp_all
  have "run_loop lines st = run_loop lines ?s2" by (rule r2)
  also have "\<dots> = run_loop lines ?s3" by (rule r3)
  also have "\<dots> = run_loop lines ?s4" by (rule r4)
  also have "?s4 = st\<lparr>skipping := False, current_section_end := None,
                       i := length xs + length inner + 2\<rparr>" by simp
  finally show ?thesis .
qed

text \<open>
  C5, as amended: for each of the 18 skip rules (marker, block-open, block-close), let the
  loop be outside any block, in any state, at a line with the marker and the block-open
  text that passes the three earlier tests and matches no earlier rule with another
  block-close text; let lines without the block-close text, the duplicate-guard marker or
  an old header text follow, and then a line with the block-close text that passes the
  three earlier tests. The loop drops all of these and goes on behind the closing line,
  outside any block and with nothing else changed; unmatched lines \<open>ys\<close> before and \<open>ws\<close>
  after the block are appended as they are. In particular a file that consists of such a
  block between unmatched lines filters to the unmatched lines.
\<close>

theorem skip_rule_block_removed:
  assumes rule: "skip_sections = before @ (marker, block_open, block_close) # after"
    and earlier: "\<forall>q\<in>set before. rule_matches q l \<longrightarrow> snd (snd q) = block_close"
    and opn: "str_in marker l" "str_in block_open l" "plain l"
    and inner: "\<forall>x\<in>set inner. \<not> has_marker x \<and> \<not> is_header x \<and> \<not> str_in block_close x"
    and cls: "plain c" "str_in block_close c"
    and ys: "\<forall>x\<in>set ys. unmatched x"
    and ws: "\<forall>x\<in>set ws. unmatched x"
    and st: "i st = length xs" "\<not> skipping st"
  shows "run_loop (xs @ ys @ [l] @ inner @ [c] @ ws @ zs) st
         = run_loop (xs @ ys @ [l] @ inner @ [c] @ ws @ zs)
             (st\<lparr>skipping := False, current_section_end := None,
                 fixed_lines := fixed_lines st @ ys @ ws,
                 i := length xs + length ys + length inner + length ws + 2\<rparr>)
         \<and> remove_system_health_components (ys @ [l] @ inner @ [c] @ ws) = Inr (ys @ ws)"
proof -
  have m: "first_match skip_sections l = Some block_close"
    using first_match_decomposed [of "(marker, block_open, block_close)" l before after]
      rule earlier opn(1,2) by (simp add: rule_matches_def)
  have gen: "run_loop (xs' @ ys @ [l] @ inner @ [c] @ ws @ zs') s
         = run_loop (xs' @ ys @ [l] @ inner @ [c] @ ws @ zs')
             (s\<lparr>skipping := False, current_section_end := None,
                fixed_lines := fixed_lines s @ ys @ ws,
                i := length xs' + length ys + length inner + length ws + 2\<rparr>)"
    if s: "i s = length xs'" "\<not> skipping s" for xs' zs' :: "string list" and s :: state
  proof -
    let ?lines = "xs' @ ys @ [l] @ inner @ [c] @ ws @ zs'"
    let ?s1 = "s\<lparr>fixed_lines := fixed_lines s @ ys, i := length xs' + length ys\<rparr>"
    let ?s2 = "?s1\<lparr>skipping := False, current_section_end := None,
                   i := length (xs' @ ys) + length inner + 2\<rparr>"
    let ?s3 = "?s2\<lparr>fixed_lines := fixed_lines ?s2 @ ws,
                   i := length (xs' @ ys @ [l] @ inner @ [c]) + length ws\<rparr>"
    have r1: "run_loop ?lines s = run_loop ?lines ?s1"
      using s ys by (intro keep_run [where zs = "[l] @ inner @ [c] @ ws @ zs'"]) simp_all
    have r2: "run_loop ?lines ?s1 = run_loop ?lines ?s2"
      using s(2) m opn(3) inner cls
      by (intro block_run [where l = l and c = c and zs = "ws @ zs'"
            and block_close = block_close]) simp_all
    have r3: "run_loop ?lines ?s2 = run_loop ?lines ?s3"
      using ws by (intro keep_run [where zs = zs']) simp_all
    have "run_loop ?lines s = run_loop ?lines ?s1" by (rule r1)
    also have "\<dots> = run_loop ?lines ?s2" by (rule r2)
    also have "\<dots> = run_loop ?lines ?s3" by (rule r3)
    also have "?s3 = s\<lparr>skipping := False, current_section_end := None,
                      fixed_lines := fixed_lines s @ ys @ ws,
                      i := length xs' + length ys + length inner + length ws + 2\<rparr>" by simp
    finally show ?thesis .
  qed
  have a: "run_loop (xs @ ys @ [l] @ inner @ [c] @ ws @ zs) st
         = run_loop (xs @ ys @ [l] @ inner @ [c] @ ws @ zs)
             (st\<lparr>skipping := False, current_section_end := None,
                 fixed_lines := fixed_lines st @ ys @ ws,
                 i := length xs + length ys + length inner + length ws + 2\<rparr>)"
    using st by (rule gen)
  let ?file = "ys @ [l] @ inner @ [c] @ ws"
  let ?fin = "init_state\<lparr>skipping := False, current_section_end := None,
                fixed_lines := fixed_lines init_state @ ys @ ws,
                i := length ([] :: string list) + length ys + length inner + length ws + 2\<rparr>"
  have "run_loop ([] @ ys @ [l] @ inner @ [c] @ ws @ []) init_state
        = run_loop ([] @ ys @ [l] @ inner @ [c] @ ws @ []) ?fin"
    by (rule gen) (simp_all add: init_state_def)
  then have "run_loop ?file init_state = run_loop ?file ?fin" by simp
  moreover have "run_loop ?file ?fin = Inr ?fin" by (rule run_loop_done) simp
  ultimately have b: "remove_system_health_components ?file = Inr (ys @ ws)"
    by (simp add: remove_system_health_components_def init_state_def)
  from a b show ?thesis by (rule conjI)
qed

theorem skip_rule_block_removed_witness:
  "skip_sections = [(''processImpactLevelEnum'', ''['', '');''), (''processes = pgTable'', ''{'', ''});'')]
       @ (''metrics = pgTable'', ''{'', ''});'') # drop 3 skip_sections
   \<and> \<not> rule_matches (''processImpactLevelEnum'', ''['', '');'')
       (''export const metrics = pgTable(m, {'' @ newline)
   \<and> \<not> rule_matches (''processes = pgTable'', ''{'', ''});'')
       (''export const metrics = pgTable(m, {'' @ newline)
   \<and> str_in ''metrics = pgTable'' (''export const metrics = pgTable(m, {'' @ newline)
   \<and> str_in ''{'' (''export const metrics = pgTable(m, {'' @ newline)
   \<and> plain (''export const metrics = pgTable(m, {'' @ newline)
   \<and> list_all (\<lambda>x. \<not> has_marker x \<and> \<not> is_header x \<and> \<not> str_in ''});'' x)
      [''  id: serial(),'' @ newline,
      ''export type Metric = number;'' @ newline]
   \<and> plain (''});'' @ newline)
   \<and> str_in ''});'' (''});'' @ newline)
   \<and> unmatched (''// tables'' @ newline)
   \<and> unmatched (''// end'' @ newline)
   \<and> loop_body ([''export const complaints = pgTable(c, {'' @ newline] @ [''// tables'' @ newline]
     @ [''export const metrics = pgTable(m, {'' @ newline]
     @ [''  id: serial(),'' @ newline,
      ''export type Metric = number;'' @ newline]
     @ [''});'' @ newline] @ [''// end'' @ newline]
     @ [''export const alerts = pgTable(a, {'' @ newline,
      ''});'' @ newline]) init_state
     = Inr (init_state\<lparr>skip_next_complaints := True,
        fixed_lines := [''export const complaints = pgTable(c, {'' @ newline], i := 1\<rparr>)
   \<and> i (init_state\<lparr>skip_next_complaints := True,
        fixed_lines := [''export const complaints = pgTable(c, {'' @ newline], i := 1\<rparr>) = length [''export const complaints = pgTable(c, {'' @ newline]
   \<and> \<not> skipping (init_state\<lparr>skip_next_complaints := True,
        fixed_lines := [''export const complaints = pgTable(c, {'' @ newline], i := 1\<rparr>)
   \<and> run_loop ([''export const complaints = pgTable(c, {'' @ newline] @ [''// tables'' @ newline]
     @ [''export const metrics = pgTable(m, {'' @ newline]
     @ [''  id: serial(),'' @ newline,
      ''export type Metric = number;'' @ newline]
     @ [''});'' @ newline] @ [''// end'' @ newline]
     @ [''export const alerts = pgTable(a, {'' @ newline,
      ''});'' @ newline])
      (init_state\<lparr>skip_next_complaints := True,
        fixed_lines := [''export const complaints = pgTable(c, {'' @ newline], i := 1\<rparr>)
     = run_loop ([''export const complaints = pgTable(c, {'' @ newline] @ [''// tables'' @ newline]
     @ [''export const metrics = pgTable(m, {'' @ newline]
     @ [''  id: serial(),'' @ newline,
      ''export type Metric = number;'' @ newline]
     @ [''});'' @ newline] @ [''// end'' @ newline]
     @ [''export const alerts = pgTable(a, {'' @ newline,
      ''});'' @ newline])
      ((init_state\<lparr>skip_next_complaints := True,
        fixed_lines := [''export const complaints = pgTable(c, {'' @ newline], i := 1\<rparr>)
       \<lparr>skipping := False, current_section_end := None,
        fixed_lines := fixed_lines (init_state\<lparr>skip_next_complaints := True,
        fixed_lines := [''export const complaints = pgTable(c, {'' @ newline], i := 1\<rparr>) @ [''// tables'' @ newline] @ [''// end'' @ newline],
        i := length [''export const complaints = pgTable(c, {'' @ newline] + length [''// tables'' @ newline]
             + length [''  id: serial(),'' @ newline,
      ''export type Metric = number;'' @ newline] + length [''// end'' @ newline] + 2\<rparr>)
   \<and> remove_system_health_components ([''// tables'' @ newline] @ [''export const metrics = pgTable(m, {'' @ newline]
     @ [''  id: serial(),'' @ newline,
      ''export type Metric = number;'' @ newline]
     @ [''});'' @ newline] @ [''// end'' @ newline])
     = Inr ([''// tables'' @ newline] @ [''// end'' @ newline])
   \<and> remove_system_health_components ([''export const complaints = pgTable(c, {'' @ newline] @ [''// tables'' @ newline]
     @ [''export const metrics = pgTable(m, {'' @ newline]
     @ [''  id: serial(),'' @ newline,
      ''export type Metric = number;'' @ newline]
     @ [''});'' @ newline] @ [''// end'' @ newline]
     @ [''export const alerts = pgTable(a, {'' @ newline,
      ''});'' @ newline])
     = Inr [''export const complaints = pgTable(c, {'' @ newline, ''// tables'' @ newline, ''// end'' @ newline]"
proof -
  have h1: "skip_sections = [(''processImpactLevelEnum'', ''['', '');''), (''processes = pgTable'', ''{'', ''});'')]
         @ (''metrics = pgTable'', ''{'', ''});'') # drop 3 skip_sections"
    by code_simp
  have w2: "\<not> rule_matches (''processImpactLevelEnum'', ''['', '');'')
         (''export const metrics = pgTable(m, {'' @ newline)"
    by code_simp
  have w2': "\<not> rule_matches (''processes = pgTable'', ''{'', ''});'')
         (''export const metrics = pgTable(m, {'' @ newline)"
    by code_simp
  have h3: "str_in ''metrics = pgTable'' (''export const metrics = pgTable(m, {'' @ newline)"
    by code_simp
  have h4: "str_in ''{'' (''export const metrics = pgTable(m, {'' @ newline)"
    by code_simp
  have h5: "plain (''export const metrics = pgTable(m, {'' @ newline)"
    by code_simp
  have w6: "list_all (\<lambda>x. \<not> has_marker x \<and> \<not> is_header x \<and> \<not> str_in ''});'' x)
        [''  id: serial(),'' @ newline,
        ''export type Metric = number;'' @ newline]"
    by code_simp
  have h7: "plain (''});'' @ newline)"
    by code_simp
  have h8: "str_in ''});'' (''});'' @ newline)"
    by code_simp
  have w9: "unmatched (''// tables'' @ newline)"
    by code_simp
  have w10: "unmatched (''// end'' @ newline)"
    by code_simp
  have rch: "loop_body ([''export const complaints = pgTable(c, {'' @ newline] @ [''// tables'' @ newline]
       @ [''export const metrics = pgTable(m, {'' @ newline]
       @ [''  id: serial(),'' @ newline,
        ''export type Metric = number;'' @ newline]
       @ [''});'' @ newline] @ [''// end'' @ newline]
       @ [''export const alerts = pgTable(a, {'' @ newline,
        ''});'' @ newline]) init_state
       = Inr (init_state\<lparr>skip_next_complaints := True,
          fixed_lines := [''export const complaints = pgTable(c, {'' @ newline], i := 1\<rparr>)"
    by code_simp
  have s1: "i (init_state\<lparr>skip_next_complaints := True,
          fixed_lines := [''export const complaints = pgTable(c, {'' @ newline], i := 1\<rparr>) = length [''export const complaints = pgTable(c, {'' @ newline]"
    by simp
  have s2: "\<not> skipping (init_state\<lparr>skip_next_complaints := True,
          fixed_lines := [''export const complaints = pgTable(c, {'' @ newline], i := 1\<rparr>)"
    by (simp add: init_state_def)
  have fl: "remove_system_health_components ([''export const complaints = pgTable(c, {'' @ newline] @ [''// tables'' @ newline]
       @ [''export const metrics = pgTable(m, {'' @ newline]
       @ [''  id: serial(),'' @ newline,
        ''export type Metric = number;'' @ newline]
       @ [''});'' @ newline] @ [''// end'' @ newline]
       @ [''export const alerts = pgTable(a, {'' @ newline,
        ''});'' @ newline])
       = Inr [''export const complaints = pgTable(c, {'' @ newline, ''// tables'' @ newline, ''// end'' @ newline]"
    by code_simp
  have h2: "\<forall>q\<in>set [(''processImpactLevelEnum'', ''['', '');''), (''processes = pgTable'', ''{'', ''});'')].
      rule_matches q (''export const metrics = pgTable(m, {'' @ newline) \<longrightarrow> snd (snd q) = ''});''"
    using w2 w2' by simp
  have h6: "\<forall>x\<in>set [''  id: serial(),'' @ newline,
        ''export type Metric = number;'' @ newline]. (\<lambda>x. \<not> has_marker x \<and> \<not> is_header x \<and> \<not> str_in ''});'' x) x"
    using w6 unfolding list_all_iff .
  have h9: "\<forall>x\<in>set [''// tables'' @ newline]. unmatched x" using w9 by simp
  have h10: "\<forall>x\<in>set [''// end'' @ newline]. unmatched x" using w10 by simp
  note t = skip_rule_block_removed [OF h1 h2 h3 h4 h5 h6 h7 h8 h9 h10 s1 s2,
      where zs = "[''export const alerts = pgTable(a, {'' @ newline,
        ''});'' @ newline]"]
  from t h1 w2 w2' h3 h4 h5 w6 h7 h8 w9 w10 rch s1 s2 fl
  show ?thesis by blast
qed

text \<open>
  C5 as stated fails: there are 18 skip rules, not 17, and a line with the
  duplicate-guard marker between the matched line and the closing line is kept, so the
  block does not filter to the empty list.
\<close>

theorem skip_rules_count_and_marker_line_kept_in_block:
  "length skip_sections = 18
   \<and> remove_system_health_components
        [''export const metrics = pgTable(m, {'' @ newline,
         ''export const complaints = pgTable(c, {'' @ newline, ''});'' @ newline]
       = Inr [''export const complaints = pgTable(c, {'' @ newline]"
  by code_simp

end
